theory Spec2Isabelle
  imports Main "HOL-Library.Word" "HOL-Library.Signed_Division"
begin

section \<open>Data model of stack\_vm.cpp\<close>

text \<open>
  The C++ \<open>int\<close> is a 32-bit two's complement value: a \<open>32 word\<close>, read as signed by
  \<open>sint\<close>. The sums, differences and products of ADD, SUB and MUL are the word
  operations (they wrap around, as the add, sub and imul instructions the compilers
  emit for them do). \<open>size_t\<close> values (the program counter, the sizes of vectors)
  are \<open>nat\<close>: the loop of \<open>run\<close> only increments \<open>pc\<close> while it is below
  \<open>program.size()\<close>, so it never reaches the 64-bit limit.
\<close>

type_synonym cint = "32 word"

datatype OpCode =
    PUSH | POP | ADD | SUB | MUL | DIV | MOD
  | LOAD | STORE | JMP | JZ | JNZ | CALL | RET
  | PRINT | HALT
  | DUP | SWAP | CMP

record Instruction =
  opcode :: OpCode
  operands :: "cint list"

text \<open>
  Every \<open>throw runtime_error(msg)\<close> of the source is a value of \<open>error\<close>; \<open>what\<close> is
  the message it carries. The messages of the commented-out CALL and RET cases
  (\<open>Call stack overflow\<close>, \<open>Return without call\<close>) are not code and have no value here.
\<close>

datatype error =
    StackOverflow | StackUnderflow | StackIsEmpty
  | DivisionByZero | ModuloByZero
  | AddressOutOfBounds | UnknownInstruction

fun what :: "error \<Rightarrow> string" where
  "what StackOverflow = ''Stack Overflow''"
| "what StackUnderflow = ''Stack Underflow''"
| "what StackIsEmpty = ''Stack is empty''"
| "what DivisionByZero = ''Division by zero''"
| "what ModuloByZero = ''Modulo by zero''"
| "what AddressOutOfBounds = ''Memory address out of bounds''"
| "what UnknownInstruction = ''Unknown instruction''"

text \<open>
  Two operations of the source have no defined result in C++ and throw nothing, so the
  \<open>catch\<close> of \<open>execute\<close> does not see them: \<open>instr.operands[0]\<close> on an empty operand
  vector, and \<open>a / b\<close>, \<open>a % b\<close> when the quotient is not representable
  (\<open>INT_MIN\<close> by \<open>-1\<close>; the x86 division instruction faults on it).
\<close>

datatype ub = OperandIndex | QuotientOverflow

text \<open>
  A member function that mutates its object and may throw is a function from the
  object's state to a result: the returned value with the new state, the error thrown
  with the state as it was left at the throw, or undefined behaviour.
\<close>

datatype ('a, 's) res = Ok 'a 's | Throw error 's | Undefined ub

definition bind :: "('s \<Rightarrow> ('a, 's) res) \<Rightarrow> ('a \<Rightarrow> 's \<Rightarrow> ('b, 's) res) \<Rightarrow> 's \<Rightarrow> ('b, 's) res" where
  "bind m f s = (case m s of
      Ok a s' \<Rightarrow> f a s'
    | Throw x s' \<Rightarrow> Throw x s'
    | Undefined u \<Rightarrow> Undefined u)"

text \<open>A call on a member object: \<open>get\<close> reads the member, \<open>put\<close> writes it back.\<close>

definition lift :: "('t \<Rightarrow> 's) \<Rightarrow> ('s \<Rightarrow> 't \<Rightarrow> 't) \<Rightarrow> ('s \<Rightarrow> ('a, 's) res) \<Rightarrow> 't \<Rightarrow> ('a, 't) res" where
  "lift get put m t = (case m (get t) of
      Ok a s' \<Rightarrow> Ok a (put s' t)
    | Throw x s' \<Rightarrow> Throw x (put s' t)
    | Undefined u \<Rightarrow> Undefined u)"

fun state_of :: "('a, 's) res \<Rightarrow> 's option" where
  "state_of (Ok a s) = Some s"
| "state_of (Throw x s) = Some s"
| "state_of (Undefined u) = None"

section \<open>class Stack\<close>

text \<open>The vector of the source, bottom first: \<open>back()\<close> is \<open>last\<close>.\<close>

type_synonym Stack = "cint list"

definition MAX_SIZE :: nat where
  "MAX_SIZE = 1024"

definition push :: "cint \<Rightarrow> Stack \<Rightarrow> (unit, Stack) res" where
  "push v s = (if length s \<ge> MAX_SIZE then Throw StackOverflow s else Ok () (s @ [v]))"

definition pop :: "Stack \<Rightarrow> (cint, Stack) res" where
  "pop s = (if s = [] then Throw StackUnderflow s else Ok (last s) (butlast s))"

definition peek :: "Stack \<Rightarrow> (cint, Stack) res" where
  "peek s = (if s = [] then Throw StackIsEmpty s else Ok (last s) s)"

definition dup :: "Stack \<Rightarrow> (unit, Stack) res" where
  "dup s = (if s = [] then Throw StackUnderflow s else bind peek push s)"

definition swap :: "Stack \<Rightarrow> (unit, Stack) res" where
  "swap s = (if length s < 2 then Throw StackUnderflow s
     else bind pop (\<lambda>a. bind pop (\<lambda>b. bind (push a) (\<lambda>_. push b))) s)"

definition stack_empty :: "Stack \<Rightarrow> bool" where
  "stack_empty s = (s = [])"

definition stack_size :: "Stack \<Rightarrow> nat" where
  "stack_size s = length s"

section \<open>class Memory\<close>

type_synonym Memory = "cint \<rightharpoonup> cint"

definition MAX_ADDRESS :: int where
  "MAX_ADDRESS = 65535"

definition store :: "cint \<Rightarrow> cint \<Rightarrow> Memory \<Rightarrow> (unit, Memory) res" where
  "store address v m =
     (if sint address < 0 \<or> sint address > MAX_ADDRESS then Throw AddressOutOfBounds m
      else Ok () (m(address \<mapsto> v)))"

definition load :: "cint \<Rightarrow> Memory \<Rightarrow> (cint, Memory) res" where
  "load address m =
     (if sint address < 0 \<or> sint address > MAX_ADDRESS then Throw AddressOutOfBounds m
      else (case m address of None \<Rightarrow> Ok 0 m | Some v \<Rightarrow> Ok v m))"

section \<open>Output streams\<close>

text \<open>
  \<open>cout\<close> and \<open>cerr\<close> are the characters written so far. \<open>operator<<\<close> writes an
  integer in decimal, and \<open>endl\<close> a newline.
\<close>

definition newline :: char where
  "newline = CHR 0x0A"

definition digit_char :: "nat \<Rightarrow> char" where
  "digit_char d = ''0123456789'' ! d"

fun show_nat :: "nat \<Rightarrow> string" where
  "show_nat n = (if n < 10 then [digit_char n] else show_nat (n div 10) @ [digit_char (n mod 10)])"

declare show_nat.simps [simp del]

definition show_int :: "int \<Rightarrow> string" where
  "show_int i = (if i < 0 then CHR ''-'' # show_nat (nat (- i)) else show_nat (nat i))"

section \<open>class ExecutionEngine\<close>

record ExecutionEngine =
  program :: "Instruction list"
  stack :: Stack
  memory :: Memory
  call_stack :: Stack
  pc :: nat
  running :: bool
  cout :: string
  cerr :: string

text \<open>A default-constructed engine, with nothing written to the streams yet.\<close>

definition fresh_engine :: ExecutionEngine where
  "fresh_engine = \<lparr>program = [], stack = [], memory = Map.empty, call_stack = [],
     pc = 0, running = True, cout = [], cerr = []\<rparr>"

definition on_stack :: "(Stack \<Rightarrow> ('a, Stack) res) \<Rightarrow> ExecutionEngine \<Rightarrow> ('a, ExecutionEngine) res" where
  "on_stack = lift stack (\<lambda>s e. e\<lparr>stack := s\<rparr>)"

definition on_memory :: "(Memory \<Rightarrow> ('a, Memory) res) \<Rightarrow> ExecutionEngine \<Rightarrow> ('a, ExecutionEngine) res" where
  "on_memory = lift memory (\<lambda>m e. e\<lparr>memory := m\<rparr>)"

definition on_call_stack :: "(Stack \<Rightarrow> ('a, Stack) res) \<Rightarrow> ExecutionEngine \<Rightarrow> ('a, ExecutionEngine) res" where
  "on_call_stack = lift call_stack (\<lambda>s e. e\<lparr>call_stack := s\<rparr>)"

text \<open>\<open>instr.operands[0]\<close>: unchecked, undefined on an empty operand vector.\<close>

definition operand0 :: "Instruction \<Rightarrow> ExecutionEngine \<Rightarrow> (cint, ExecutionEngine) res" where
  "operand0 instr e = (case operands instr of [] \<Rightarrow> Undefined OperandIndex | v # _ \<Rightarrow> Ok v e)"

definition INT_MIN :: cint where
  "INT_MIN = - (2 ^ 31)"

text \<open>
  \<open>a / b\<close> and \<open>a % b\<close> for a divisor that is not zero: C++ truncates towards zero and
  the remainder has the sign of the dividend (\<open>sdiv\<close> and \<open>smod\<close> on \<open>int\<close>).
\<close>

definition c_div :: "cint \<Rightarrow> cint \<Rightarrow> ExecutionEngine \<Rightarrow> (cint, ExecutionEngine) res" where
  "c_div a b e = (if a = INT_MIN \<and> b = - 1 then Undefined QuotientOverflow
     else Ok (word_of_int (sint a sdiv sint b)) e)"

definition c_mod :: "cint \<Rightarrow> cint \<Rightarrow> ExecutionEngine \<Rightarrow> (cint, ExecutionEngine) res" where
  "c_mod a b e = (if a = INT_MIN \<and> b = - 1 then Undefined QuotientOverflow
     else Ok (word_of_int (sint a smod sint b)) e)"

definition print :: "cint \<Rightarrow> ExecutionEngine \<Rightarrow> (unit, ExecutionEngine) res" where
  "print v e = Ok () (e\<lparr>cout := cout e @ show_int (sint v) @ [newline]\<rparr>)"

text \<open>The \<open>switch\<close> inside the \<open>try\<close> block of \<open>execute\<close>.\<close>

definition dispatch :: "Instruction \<Rightarrow> ExecutionEngine \<Rightarrow> (unit, ExecutionEngine) res" where
  "dispatch instr = (case opcode instr of
      PUSH \<Rightarrow> bind (operand0 instr) (\<lambda>v. on_stack (push v))
    | POP \<Rightarrow> bind (on_stack pop) (\<lambda>_. Ok ())
    | ADD \<Rightarrow> bind (on_stack pop) (\<lambda>b. bind (on_stack pop) (\<lambda>a. on_stack (push (a + b))))
    | SUB \<Rightarrow> bind (on_stack pop) (\<lambda>b. bind (on_stack pop) (\<lambda>a. on_stack (push (a - b))))
    | MUL \<Rightarrow> bind (on_stack pop) (\<lambda>b. bind (on_stack pop) (\<lambda>a. on_stack (push (a * b))))
    | DIV \<Rightarrow> bind (on_stack pop) (\<lambda>b.
        if b = 0 then Throw DivisionByZero
        else bind (on_stack pop) (\<lambda>a. bind (c_div a b) (\<lambda>q. on_stack (push q))))
    | MOD \<Rightarrow> bind (on_stack pop) (\<lambda>b.
        if b = 0 then Throw ModuloByZero
        else bind (on_stack pop) (\<lambda>a. bind (c_mod a b) (\<lambda>r. on_stack (push r))))
    | LOAD \<Rightarrow> bind (operand0 instr) (\<lambda>address.
        bind (on_memory (load address)) (\<lambda>v. on_stack (push v)))
    | STORE \<Rightarrow> bind (operand0 instr) (\<lambda>address.
        bind (on_stack pop) (\<lambda>v. on_memory (store address v)))
    | DUP \<Rightarrow> on_stack dup
    | SWAP \<Rightarrow> on_stack swap
    | CMP \<Rightarrow> bind (on_stack pop) (\<lambda>b. bind (on_stack pop) (\<lambda>a.
        on_stack (push (if sint a < sint b then - 1 else if sint a > sint b then 1 else 0))))
    | PRINT \<Rightarrow> bind (on_stack pop) print
    | HALT \<Rightarrow> (\<lambda>e. Ok () (e\<lparr>running := False\<rparr>))
    | _ \<Rightarrow> Throw UnknownInstruction)"

text \<open>
  The operands the \<open>switch\<close> reads: \<open>operands[0]\<close> in the PUSH, LOAD and STORE cases,
  none in the others. An instruction is well formed when it carries at least as many.
\<close>

fun operand_count :: "OpCode \<Rightarrow> nat" where
  "operand_count PUSH = 1"
| "operand_count LOAD = 1"
| "operand_count STORE = 1"
| "operand_count _ = 0"

definition well_formed :: "Instruction \<Rightarrow> bool" where
  "well_formed i = (operand_count (opcode i) \<le> length (operands i))"

text \<open>
  The \<open>catch\<close> handler: the diagnostic line on \<open>cerr\<close>, then \<open>running = false\<close>.
\<close>

definition diagnostic :: "nat \<Rightarrow> error \<Rightarrow> string" where
  "diagnostic n x = ''Runtime error at PC='' @ show_nat n @ '': '' @ what x @ [newline]"

definition execute :: "Instruction \<Rightarrow> ExecutionEngine \<Rightarrow> (unit, ExecutionEngine) res" where
  "execute instr e = (case dispatch instr e of
      Ok _ e' \<Rightarrow> Ok () e'
    | Throw x e' \<Rightarrow> Ok () (e'\<lparr>cerr := cerr e' @ diagnostic (pc e') x, running := False\<rparr>)
    | Undefined u \<Rightarrow> Undefined u)"

text \<open>\<open>while (!call_stack.empty()) call_stack.pop();\<close>\<close>

function clear :: "Stack \<Rightarrow> (unit, Stack) res" where
  "clear s = (if \<not> stack_empty s
     then (case pop s of
         Ok v s' \<Rightarrow> clear s'
       | Throw x s' \<Rightarrow> Throw x s'
       | Undefined u \<Rightarrow> Undefined u)
     else Ok () s)"
  by pat_completeness auto
termination
  by (relation "measure length") (auto simp: pop_def stack_empty_def split: if_splits)

declare clear.simps [simp del]

definition load_program :: "Instruction list \<Rightarrow> ExecutionEngine \<Rightarrow> (unit, ExecutionEngine) res" where
  "load_program bytecode e = on_call_stack clear (e\<lparr>program := bytecode, pc := 0, running := True\<rparr>)"

text \<open>
  \<open>while (running && pc < program.size()) { execute(program[pc]); pc++; }\<close>
  The measure of the loop is the distance of \<open>pc\<close> to the end of the program: no case of
  \<open>dispatch\<close> writes \<open>pc\<close> or \<open>program\<close>.
\<close>

function run :: "ExecutionEngine \<Rightarrow> (unit, ExecutionEngine) res" where
  "run e = (if running e \<and> pc e < length (program e)
     then (case execute (program e ! pc e) e of
         Ok _ e' \<Rightarrow> run (e'\<lparr>pc := pc e' + 1\<rparr>)
       | Throw x e' \<Rightarrow> Throw x e'
       | Undefined u \<Rightarrow> Undefined u)
     else Ok () e)"
  by pat_completeness auto
termination
proof (relation "measure (\<lambda>e. length (program e) - pc e)")
  show "wf (measure (\<lambda>e. length (program e) - pc e))"
    by simp
next
  fix e :: ExecutionEngine and u :: unit and e' :: ExecutionEngine
  assume c: "running e \<and> pc e < length (program e)"
    and x: "execute (program e ! pc e) e = Ok u e'"
  have frame: "pc e1 = pc e0 \<and> program e1 = program e0"
    if "state_of (dispatch i e0) = Some e1" for i e0 e1
    using that
    by (cases "opcode i")
      (auto simp: dispatch_def bind_def lift_def on_stack_def on_memory_def operand0_def
        push_def pop_def peek_def dup_def swap_def store_def load_def c_div_def c_mod_def
        print_def
        split: res.splits if_splits list.splits option.splits)
  have "pc e' = pc e \<and> program e' = program e"
  proof (cases "dispatch (program e ! pc e) e")
    case (Ok a e1)
    with x have "e' = e1"
      by (simp add: execute_def)
    moreover from Ok have "state_of (dispatch (program e ! pc e) e) = Some e1"
      by simp
    ultimately show ?thesis
      using frame by blast
  next
    case (Throw y e1)
    with x have "e' = e1\<lparr>cerr := cerr e1 @ diagnostic (pc e1) y, running := False\<rparr>"
      by (simp add: execute_def)
    moreover from Throw have "state_of (dispatch (program e ! pc e) e) = Some e1"
      by simp
    then have "pc e1 = pc e \<and> program e1 = program e"
      by (rule frame)
    ultimately show ?thesis
      by simp
  next
    case (Undefined u)
    with x show ?thesis
      by (simp add: execute_def)
  qed
  with c show "(e'\<lparr>pc := pc e' + 1\<rparr>, e) \<in> measure (\<lambda>e. length (program e) - pc e)"
    by auto
qed

declare run.simps [simp del]

text \<open>
  The same loop with a budget of dispatches: \<open>None\<close> when the budget runs out before the
  loop ends.
\<close>

fun run_fuel :: "nat \<Rightarrow> ExecutionEngine \<Rightarrow> (unit, ExecutionEngine) res option" where
  "run_fuel n e = (if running e \<and> pc e < length (program e)
     then (case n of
         0 \<Rightarrow> None
       | Suc k \<Rightarrow> (case execute (program e ! pc e) e of
             Ok _ e' \<Rightarrow> run_fuel k (e'\<lparr>pc := pc e' + 1\<rparr>)
           | Throw x e' \<Rightarrow> Some (Throw x e')
           | Undefined u \<Rightarrow> Some (Undefined u)))
     else Some (Ok () e))"

declare run_fuel.simps [simp del]

text \<open>
  The same loop cut after \<open>k\<close> dispatches: the state in which the next instruction, if
  any, would be dispatched.
\<close>

fun run_prefix :: "nat \<Rightarrow> ExecutionEngine \<Rightarrow> (unit, ExecutionEngine) res" where
  "run_prefix 0 e = Ok () e"
| "run_prefix (Suc k) e = (if running e \<and> pc e < length (program e)
     then (case execute (program e ! pc e) e of
         Ok _ e' \<Rightarrow> run_prefix k (e'\<lparr>pc := pc e' + 1\<rparr>)
       | Throw x e' \<Rightarrow> Throw x e'
       | Undefined u \<Rightarrow> Undefined u)
     else Ok () e)"

section \<open>class VirtualMachine and main\<close>

record VirtualMachine =
  engine :: ExecutionEngine

definition on_engine :: "(ExecutionEngine \<Rightarrow> ('a, ExecutionEngine) res) \<Rightarrow> VirtualMachine \<Rightarrow> ('a, VirtualMachine) res" where
  "on_engine = lift engine (\<lambda>e vm. vm\<lparr>engine := e\<rparr>)"

definition vm_load_program :: "Instruction list \<Rightarrow> VirtualMachine \<Rightarrow> (unit, VirtualMachine) res" where
  "vm_load_program p = on_engine (load_program p)"

definition vm_run :: "VirtualMachine \<Rightarrow> (unit, VirtualMachine) res" where
  "vm_run = on_engine run"

definition instr :: "OpCode \<Rightarrow> cint list \<Rightarrow> Instruction" where
  "instr op ops = \<lparr>opcode = op, operands = ops\<rparr>"

definition main_program :: "Instruction list" where
  "main_program =
     [instr PUSH [5], instr STORE [0], instr PUSH [10], instr STORE [1],
      instr LOAD [0], instr LOAD [1], instr ADD [], instr PRINT [], instr HALT []]"

definition main :: "(unit, VirtualMachine) res" where
  "main = bind (vm_load_program main_program) (\<lambda>_. vm_run) \<lparr>engine = fresh_engine\<rparr>"

text \<open>Loading a program into an engine and running it, as \<open>main\<close> does.\<close>

definition load_and_run :: "Instruction list \<Rightarrow> ExecutionEngine \<Rightarrow> (unit, ExecutionEngine) res" where
  "load_and_run p = bind (load_program p) (\<lambda>_. run)"

section \<open>Loading a program\<close>

lemma clear_eq: "clear s = Ok () []"
proof (induction s rule: clear.induct)
  case (1 s)
  show ?case
  proof (cases "s = []")
    case True
    then show ?thesis
      by (subst clear.simps) (simp add: stack_empty_def)
  next
    case False
    then have "pop s = Ok (last s) (butlast s)"
      by (simp add: pop_def)
    with False 1 show ?thesis
      by (subst clear.simps) (simp add: stack_empty_def)
  qed
qed

lemma load_program_eq:
  "load_program p e = Ok () (e\<lparr>program := p, pc := 0, running := True, call_stack := []\<rparr>)"
  by (simp add: load_program_def on_call_stack_def lift_def clear_eq)

section \<open>The dispatch loop: frame, unfolding, budget\<close>

text \<open>No case of the \<open>switch\<close> writes the program counter, the program, the call stack
  or \<open>cerr\<close>, whether it returns or throws.\<close>

lemma dispatch_frame:
  "state_of (dispatch i e) = Some e1 \<Longrightarrow>
     pc e1 = pc e \<and> program e1 = program e \<and> call_stack e1 = call_stack e \<and> cerr e1 = cerr e"
  by (cases "opcode i")
    (auto simp: dispatch_def bind_def lift_def on_stack_def on_memory_def operand0_def
      push_def pop_def peek_def dup_def swap_def store_def load_def c_div_def c_mod_def
      print_def
      split: res.splits if_splits list.splits option.splits)

lemma execute_no_throw: "execute i e \<noteq> Throw x e'"
  by (simp add: execute_def split: res.splits)

lemma execute_frame:
  assumes "execute i e = Ok u e'"
  shows "pc e' = pc e \<and> program e' = program e"
proof (cases "dispatch i e")
  case (Ok a e1)
  with assms have "e' = e1"
    by (simp add: execute_def)
  moreover from Ok have "state_of (dispatch i e) = Some e1"
    by simp
  ultimately show ?thesis
    using dispatch_frame by blast
next
  case (Throw y e1)
  with assms have "e' = e1\<lparr>cerr := cerr e1 @ diagnostic (pc e1) y, running := False\<rparr>"
    by (simp add: execute_def)
  moreover from Throw have "state_of (dispatch i e) = Some e1"
    by simp
  then have "pc e1 = pc e \<and> program e1 = program e"
    using dispatch_frame by blast
  ultimately show ?thesis
    by simp
next
  case (Undefined u)
  with assms show ?thesis
    by (simp add: execute_def)
qed

lemma run_stop: "\<not> (running e \<and> pc e < length (program e)) \<Longrightarrow> run e = Ok () e"
  by (subst run.simps) auto

lemma run_step:
  "running e \<Longrightarrow> pc e < length (program e) \<Longrightarrow> execute (program e ! pc e) e = Ok u e1 \<Longrightarrow>
     run e = run (e1\<lparr>pc := pc e1 + 1\<rparr>)"
  by (subst run.simps) simp

lemma run_undefined:
  "running e \<Longrightarrow> pc e < length (program e) \<Longrightarrow> execute (program e ! pc e) e = Undefined u \<Longrightarrow>
     run e = Undefined u"
  by (subst run.simps) simp

lemma run_no_throw: "run e \<noteq> Throw x e'"
proof (induction e rule: run.induct)
  case (1 e)
  show ?case
  proof (cases "running e \<and> pc e < length (program e)")
    case False
    then show ?thesis
      by (simp add: run_stop)
  next
    case True
    show ?thesis
    proof (cases "execute (program e ! pc e) e")
      case (Ok u e1)
      with True 1 have "run (e1\<lparr>pc := pc e1 + 1\<rparr>) \<noteq> Throw x e'"
        by blast
      with True Ok show ?thesis
        by (simp add: run_step)
    next
      case (Throw y e1)
      then show ?thesis
        by (simp add: execute_no_throw)
    next
      case (Undefined u)
      with True show ?thesis
        by (simp add: run_undefined)
    qed
  qed
qed

lemma run_final:
  "pc e \<le> length (program e) \<Longrightarrow> run e = Ok u e' \<Longrightarrow>
     program e' = program e \<and> pc e' \<le> length (program e) \<and>
     (\<not> running e' \<or> pc e' = length (program e))"
proof (induction e rule: run.induct)
  case (1 e)
  show ?case
  proof (cases "running e \<and> pc e < length (program e)")
    case False
    with 1(3) have "e' = e"
      by (simp add: run_stop)
    with False 1(2) show ?thesis
      by auto
  next
    case True
    show ?thesis
    proof (cases "execute (program e ! pc e) e")
      case (Ok v e1)
      then have f: "pc e1 = pc e \<and> program e1 = program e"
        by (rule execute_frame)
      from True Ok 1(3) have "run (e1\<lparr>pc := pc e1 + 1\<rparr>) = Ok u e'"
        by (simp add: run_step)
      moreover from True f have "pc (e1\<lparr>pc := pc e1 + 1\<rparr>) \<le> length (program (e1\<lparr>pc := pc e1 + 1\<rparr>))"
        by simp
      ultimately have "program e' = program (e1\<lparr>pc := pc e1 + 1\<rparr>) \<and>
          pc e' \<le> length (program (e1\<lparr>pc := pc e1 + 1\<rparr>)) \<and>
          (\<not> running e' \<or> pc e' = length (program (e1\<lparr>pc := pc e1 + 1\<rparr>)))"
        using 1(1) True Ok by blast
      with f show ?thesis
        by simp
    next
      case (Throw y e1)
      then show ?thesis
        by (simp add: execute_no_throw)
    next
      case (Undefined w)
      with True 1(3) show ?thesis
        by (simp add: run_undefined)
    qed
  qed
qed

lemma run_fuel_stop:
  "\<not> (running e \<and> pc e < length (program e)) \<Longrightarrow> run_fuel n e = Some (Ok () e)"
  by (subst run_fuel.simps) auto

lemma run_fuel_step:
  "running e \<Longrightarrow> pc e < length (program e) \<Longrightarrow> execute (program e ! pc e) e = Ok u e1 \<Longrightarrow>
     run_fuel (Suc k) e = run_fuel k (e1\<lparr>pc := pc e1 + 1\<rparr>)"
  by (subst run_fuel.simps) simp

lemma run_fuel_undefined:
  "running e \<Longrightarrow> pc e < length (program e) \<Longrightarrow> execute (program e ! pc e) e = Undefined u \<Longrightarrow>
     run_fuel (Suc k) e = Some (Undefined u)"
  by (subst run_fuel.simps) simp

lemma run_fuel_enough:
  "length (program e) - pc e \<le> n \<Longrightarrow> run_fuel n e = Some (run e)"
proof (induction e arbitrary: n rule: run.induct)
  case (1 e)
  show ?case
  proof (cases "running e \<and> pc e < length (program e)")
    case False
    then show ?thesis
      by (simp add: run_stop run_fuel_stop)
  next
    case True
    with 1(2) obtain k where n: "n = Suc k"
      by (cases n) auto
    show ?thesis
    proof (cases "execute (program e ! pc e) e")
      case (Ok v e1)
      then have f: "pc e1 = pc e \<and> program e1 = program e"
        by (rule execute_frame)
      with 1(2) n have "length (program (e1\<lparr>pc := pc e1 + 1\<rparr>)) - pc (e1\<lparr>pc := pc e1 + 1\<rparr>) \<le> k"
        by simp
      with 1(1) True Ok have "run_fuel k (e1\<lparr>pc := pc e1 + 1\<rparr>) = Some (run (e1\<lparr>pc := pc e1 + 1\<rparr>))"
        by blast
      with True Ok n show ?thesis
        by (simp add: run_step run_fuel_step)
    next
      case (Throw y e1)
      then show ?thesis
        by (simp add: execute_no_throw)
    next
      case (Undefined w)
      with True n show ?thesis
        by (simp add: run_undefined run_fuel_undefined)
    qed
  qed
qed

section \<open>What can leave \<open>run\<close>\<close>

text \<open>
  Whatever the \<open>switch\<close> throws is one of six errors, and the handler turns it into a
  diagnostic line and \<open>running = false\<close>: nothing thrown leaves \<open>execute\<close> or \<open>run\<close>.
  With the operands in place, the one way out of \<open>run\<close> other than returning is the
  quotient that is not representable.
\<close>

lemma execute_catches:
  "dispatch i e = Throw x e1 \<Longrightarrow>
     execute i e = Ok () (e1\<lparr>cerr := cerr e1 @ diagnostic (pc e1) x, running := False\<rparr>)"
  by (simp add: execute_def)

lemma dispatch_errors:
  "dispatch i e = Throw x e1 \<Longrightarrow>
     x \<in> {StackOverflow, StackUnderflow, DivisionByZero, ModuloByZero, AddressOutOfBounds,
       UnknownInstruction}"
  by (cases "opcode i"; cases x)
    (auto simp: dispatch_def bind_def lift_def on_stack_def on_memory_def operand0_def
      push_def pop_def peek_def dup_def swap_def store_def load_def c_div_def c_mod_def
      print_def
      split: res.splits if_splits list.splits option.splits)

lemma dispatch_operands:
  "well_formed i \<Longrightarrow> dispatch i e \<noteq> Undefined OperandIndex"
  by (cases "opcode i"; cases "operands i")
    (auto simp: well_formed_def dispatch_def bind_def lift_def on_stack_def on_memory_def operand0_def
      push_def pop_def peek_def dup_def swap_def store_def load_def c_div_def c_mod_def
      print_def
      split: res.splits if_splits list.splits option.splits)

lemma execute_operands:
  "well_formed i \<Longrightarrow> execute i e \<noteq> Undefined OperandIndex"
  using dispatch_operands [of i e]
  by (auto simp: execute_def split: res.splits)

lemma run_operands:
  "list_all well_formed (program e) \<Longrightarrow> run e \<noteq> Undefined OperandIndex"
proof (induction e rule: run.induct)
  case (1 e)
  show ?case
  proof (cases "running e \<and> pc e < length (program e)")
    case False
    then show ?thesis
      by (simp add: run_stop)
  next
    case True
    with 1(2) have wf: "well_formed (program e ! pc e)"
      by (simp add: list_all_length)
    show ?thesis
    proof (cases "execute (program e ! pc e) e")
      case (Ok v e1)
      then have "pc e1 = pc e \<and> program e1 = program e"
        by (rule execute_frame)
      with 1(2) have "list_all well_formed (program (e1\<lparr>pc := pc e1 + 1\<rparr>))"
        by simp
      with 1(1) True Ok have "run (e1\<lparr>pc := pc e1 + 1\<rparr>) \<noteq> Undefined OperandIndex"
        by blast
      with True Ok show ?thesis
        by (simp add: run_step)
    next
      case (Throw y e1)
      then show ?thesis
        by (simp add: execute_no_throw)
    next
      case (Undefined w)
      with wf have "w \<noteq> OperandIndex"
        using execute_operands by metis
      with True Undefined show ?thesis
        by (simp add: run_undefined)
    qed
  qed
qed

lemma run_cases:
  "run e = Undefined OperandIndex \<or> run e = Undefined QuotientOverflow \<or> (\<exists>e'. run e = Ok () e')"
proof (cases "run e")
  case (Ok u e')
  then show ?thesis by simp
next
  case (Throw x e')
  then show ?thesis by (simp add: run_no_throw)
next
  case (Undefined w)
  then show ?thesis by (cases w) simp_all
qed

text \<open>
  The quotient overflows in exactly one situation: the opcode is DIV or MOD and the two
  values on top of the operand stack are \<open>INT_MIN\<close> and, above it, \<open>-1\<close>. When \<open>run\<close>
  ends this way, the loop has reached, after some number of dispatches, a state in which
  such an instruction is the next one.
\<close>

lemma dispatch_quotient_overflow:
  "(dispatch i e = Undefined QuotientOverflow) =
     (opcode i \<in> {DIV, MOD} \<and> (\<exists>s. stack e = s @ [INT_MIN, - 1]))"
proof (cases "opcode i \<in> {DIV, MOD}")
  case False
  then have "dispatch i e \<noteq> Undefined QuotientOverflow"
    by (cases "opcode i")
      (auto simp: dispatch_def bind_def lift_def on_stack_def on_memory_def operand0_def
        push_def pop_def peek_def dup_def swap_def store_def load_def print_def
        split: res.splits if_splits list.splits option.splits)
  with False show ?thesis
    by simp
next
  case True
  show ?thesis
  proof (cases "stack e" rule: rev_cases)
    case Nil
    with True show ?thesis
      by (auto simp: dispatch_def bind_def lift_def on_stack_def pop_def)
  next
    case (snoc s1 b)
    note s1 = this
    show ?thesis
    proof (cases s1 rule: rev_cases)
      case Nil
      with True s1 show ?thesis
        by (auto simp: dispatch_def bind_def lift_def on_stack_def pop_def split: if_splits)
    next
      case (snoc s a)
      with True s1 show ?thesis
        by (auto simp: dispatch_def bind_def lift_def on_stack_def pop_def push_def
            c_div_def c_mod_def INT_MIN_def butlast_append split: if_splits)
    qed
  qed
qed

lemma execute_undefined:
  "execute i e = Undefined u \<Longrightarrow> dispatch i e = Undefined u"
  by (auto simp: execute_def split: res.splits)

lemma run_prefix_frame:
  "run_prefix k e = Ok u e1 \<Longrightarrow> running e1 \<Longrightarrow> pc e1 < length (program e1) \<Longrightarrow>
     pc e1 = pc e + k \<and> program e1 = program e"
proof (induction k arbitrary: e)
  case 0
  then show ?case by simp
next
  case (Suc k)
  show ?case
  proof (cases "running e \<and> pc e < length (program e)")
    case False
    with Suc.prems(1) have "e1 = e"
      by auto
    with False Suc.prems show ?thesis
      by simp
  next
    case True
    show ?thesis
    proof (cases "execute (program e ! pc e) e")
      case (Ok v e2)
      then have f: "pc e2 = pc e \<and> program e2 = program e"
        by (rule execute_frame)
      from True Ok Suc.prems(1) have "run_prefix k (e2\<lparr>pc := pc e2 + 1\<rparr>) = Ok u e1"
        by simp
      then have "pc e1 = pc (e2\<lparr>pc := pc e2 + 1\<rparr>) + k \<and> program e1 = program (e2\<lparr>pc := pc e2 + 1\<rparr>)"
        using Suc.prems(2,3) by (rule Suc.IH)
      with f show ?thesis
        by simp
    next
      case (Throw y e2)
      with True Suc.prems(1) show ?thesis
        by simp
    next
      case (Undefined w)
      with True Suc.prems(1) show ?thesis
        by simp
    qed
  qed
qed

lemma run_overflow_state:
  "run e = Undefined QuotientOverflow \<Longrightarrow>
     \<exists>k e1. run_prefix k e = Ok () e1 \<and> running e1 \<and> pc e1 < length (program e1) \<and>
       dispatch (program e1 ! pc e1) e1 = Undefined QuotientOverflow"
proof (induction e rule: run.induct)
  case (1 e)
  show ?case
  proof (cases "running e \<and> pc e < length (program e)")
    case False
    with 1(2) show ?thesis
      by (simp add: run_stop)
  next
    case True
    show ?thesis
    proof (cases "execute (program e ! pc e) e")
      case (Ok v e2)
      with True 1(2) have "run (e2\<lparr>pc := pc e2 + 1\<rparr>) = Undefined QuotientOverflow"
        by (simp add: run_step)
      with 1(1) True Ok obtain k e1 where
        k: "run_prefix k (e2\<lparr>pc := pc e2 + 1\<rparr>) = Ok () e1" "running e1"
          "pc e1 < length (program e1)"
          "dispatch (program e1 ! pc e1) e1 = Undefined QuotientOverflow"
        by blast
      from True Ok k(1) have "run_prefix (Suc k) e = Ok () e1"
        by simp
      with k show ?thesis
        by blast
    next
      case (Throw y e2)
      then show ?thesis
        by (simp add: execute_no_throw)
    next
      case (Undefined w)
      with True 1(2) have "w = QuotientOverflow"
        by (simp add: run_undefined)
      with Undefined have "dispatch (program e ! pc e) e = Undefined QuotientOverflow"
        by (simp add: execute_undefined)
      moreover have "run_prefix 0 e = Ok () e"
        by simp
      ultimately show ?thesis
        using True by blast
    qed
  qed
qed

section \<open>Evaluation of concrete programs\<close>

lemmas eval_defs =
  load_and_run_def load_program_eq bind_def lift_def on_stack_def on_memory_def operand0_def
  push_def pop_def peek_def dup_def swap_def store_def load_def c_div_def c_mod_def
  print_def dispatch_def execute_def instr_def fresh_engine_def run.simps diagnostic_def
  MAX_SIZE_def MAX_ADDRESS_def show_nat.simps show_int_def digit_char_def newline_def
  INT_MIN_def well_formed_def

section \<open>Stack overflow\<close>

lemma execute_push_ok:
  "length (stack e) < 1024 \<Longrightarrow> execute (instr PUSH [v]) e = Ok () (e\<lparr>stack := stack e @ [v]\<rparr>)"
  by (simp add: execute_def dispatch_def instr_def bind_def operand0_def on_stack_def lift_def
      push_def MAX_SIZE_def)

lemma execute_push_overflow:
  "1024 \<le> length (stack e) \<Longrightarrow> execute (instr PUSH [v]) e =
     Ok () (e\<lparr>cerr := cerr e @ diagnostic (pc e) StackOverflow, running := False\<rparr>)"
  by (simp add: execute_def dispatch_def instr_def bind_def operand0_def on_stack_def lift_def
      push_def MAX_SIZE_def)

lemma run_pushes:
  assumes "program e = map (\<lambda>v. instr PUSH [v]) vs" and "length vs = 1025" and "running e"
    and "pc e \<le> 1024" and "stack e = take (pc e) vs"
  shows "run e = Ok () (e\<lparr>stack := take 1024 vs, pc := 1025, running := False,
           cerr := cerr e @ diagnostic 1024 StackOverflow\<rparr>)"
  using assms
proof (induction "1024 - pc e" arbitrary: e)
  case 0
  then have pc: "pc e = 1024"
    by simp
  with 0 have i: "program e ! pc e = instr PUSH [vs ! 1024]"
    by simp
  from 0 pc have "1024 \<le> length (stack e)"
    by simp
  then have "execute (instr PUSH [vs ! 1024]) e =
      Ok () (e\<lparr>cerr := cerr e @ diagnostic (pc e) StackOverflow, running := False\<rparr>)"
    by (rule execute_push_overflow)
  with 0 pc i have "run e = run (e\<lparr>cerr := cerr e @ diagnostic (pc e) StackOverflow,
      running := False, pc := 1025\<rparr>)"
    by (simp add: run_step)
  also have "\<dots> = Ok () (e\<lparr>cerr := cerr e @ diagnostic (pc e) StackOverflow,
      running := False, pc := 1025\<rparr>)"
    by (simp add: run_stop)
  finally show ?case
    using 0 pc by simp
next
  case (Suc k)
  then have pc: "pc e < 1024"
    by simp
  with Suc have i: "program e ! pc e = instr PUSH [vs ! pc e]"
    by simp
  from Suc pc have "length (stack e) < 1024"
    by simp
  then have "execute (instr PUSH [vs ! pc e]) e = Ok () (e\<lparr>stack := stack e @ [vs ! pc e]\<rparr>)"
    by (rule execute_push_ok)
  with Suc pc i have r: "run e = run (e\<lparr>stack := stack e @ [vs ! pc e], pc := pc e + 1\<rparr>)"
    by (simp add: run_step)
  from Suc pc have t: "stack e @ [vs ! pc e] = take (pc e + 1) vs"
    by (simp add: take_Suc_conv_app_nth)
  let ?e = "e\<lparr>stack := stack e @ [vs ! pc e], pc := pc e + 1\<rparr>"
  have "run ?e = Ok () (?e\<lparr>stack := take 1024 vs, pc := 1025, running := False,
           cerr := cerr ?e @ diagnostic 1024 StackOverflow\<rparr>)"
  proof (rule Suc(1))
    show "k = 1024 - pc ?e" using Suc(2) by simp
    show "program ?e = map (\<lambda>v. instr PUSH [v]) vs" using Suc by simp
    show "length vs = 1025" by fact
    show "running ?e" using Suc by simp
    show "pc ?e \<le> 1024" using pc by simp
    show "stack ?e = take (pc ?e) vs" using t by simp
  qed
  with r show ?case
    by simp
qed

lemma run_1025_pushes:
  assumes "length vs = 1025" and "stack e = []"
  shows "load_and_run (map (\<lambda>v. instr PUSH [v]) vs) e =
    Ok () (e\<lparr>program := map (\<lambda>v. instr PUSH [v]) vs, stack := take 1024 vs, call_stack := [],
      pc := 1025, running := False,
      cerr := cerr e @ ''Runtime error at PC=1024: Stack Overflow'' @ [newline]\<rparr>)"
proof -
  let ?e = "e\<lparr>program := map (\<lambda>v. instr PUSH [v]) vs, pc := 0, running := True, call_stack := []\<rparr>"
  have "run ?e = Ok () (?e\<lparr>stack := take 1024 vs, pc := 1025, running := False,
           cerr := cerr ?e @ diagnostic 1024 StackOverflow\<rparr>)"
    by (rule run_pushes) (use assms in simp_all)
  moreover have "diagnostic 1024 StackOverflow = ''Runtime error at PC=1024: Stack Overflow'' @ [newline]"
    by (simp add: diagnostic_def show_nat.simps digit_char_def)
  ultimately show ?thesis
    by (simp add: load_and_run_def bind_def load_program_eq)
qed

text \<open>
  C7. A program of 1025 PUSH instructions, loaded into an engine whose operand stack is
  empty and run: the first 1024 pushes succeed, the 1025th (at index 1024) throws
  \<open>Stack Overflow\<close>, which is the only diagnostic written. Afterwards the operand stack
  holds exactly the first 1024 values and \<open>running\<close> is false. \<open>push\<close> throws exactly
  when the stack already holds \<open>MAX_SIZE = 1024\<close> values or more.
\<close>

theorem stack_overflow_on_1025th_push:
  assumes "length vs = 1025" and "stack e = []"
  shows "\<exists>e'. load_and_run (map (\<lambda>v. instr PUSH [v]) vs) e = Ok () e' \<and>
    stack e' = take 1024 vs \<and> length (stack e') = 1024 \<and> \<not> running e' \<and>
    cerr e' = cerr e @ ''Runtime error at PC=1024: Stack Overflow'' @ [newline] \<and>
    (push v s = Throw StackOverflow s) = (1024 \<le> length s)"
proof -
  have "(push v s = Throw StackOverflow s) = (1024 \<le> length s)"
    by (simp add: push_def MAX_SIZE_def)
  with assms show ?thesis
    by (simp add: run_1025_pushes)
qed

theorem stack_overflow_on_1025th_push_witness:
  "length (replicate 1025 (0 :: cint)) = 1025 \<and> stack fresh_engine = [] \<and>
   (\<exists>e'. load_and_run (map (\<lambda>v. instr PUSH [v]) (replicate 1025 0)) fresh_engine = Ok () e' \<and>
    stack e' = replicate 1024 0 \<and> length (stack e') = 1024 \<and> \<not> running e' \<and>
    cerr e' = ''Runtime error at PC=1024: Stack Overflow'' @ [newline])"
  using stack_overflow_on_1025th_push [of "replicate 1025 0" fresh_engine 0 "[]"]
  by (auto simp: fresh_engine_def)


section \<open>Division and modulo by zero\<close>

text \<open>
  The DIV and MOD cases pop the divisor, test it, and only then pop the dividend: when
  the divisor is zero the throw comes before the second pop.
\<close>

lemma dispatch_div_by_zero:
  "stack e = s @ [a, 0] \<Longrightarrow>
     dispatch (instr DIV []) e = Throw DivisionByZero (e\<lparr>stack := s @ [a]\<rparr>) \<and>
     dispatch (instr MOD []) e = Throw ModuloByZero (e\<lparr>stack := s @ [a]\<rparr>)"
  by (simp add: dispatch_def instr_def bind_def on_stack_def lift_def pop_def butlast_append)

lemma c_div_truncates:
  "c_div (- 7) 2 e = Ok (- 3) e \<and> c_mod (- 7) 2 e = Ok (- 1) e \<and>
   c_div 7 (- 2) e = Ok (- 3) e \<and> c_mod 7 (- 2) e = Ok 1 e"
  by (simp add: c_div_def c_mod_def INT_MIN_def signed_divide_int_def signed_modulo_int_def)

text \<open>
  C1, as stated, fails. After \<open>PUSH 7; PUSH 0; DIV\<close> on a fresh engine the operand stack
  is \<open>[7]\<close>: the dividend is still there.
\<close>

theorem division_by_zero_keeps_dividend_cex:
  "map_option stack (state_of
     (load_and_run [instr PUSH [7], instr PUSH [0], instr DIV []] fresh_engine)) = Some [7]"
  by (simp add: eval_defs)

text \<open>
  C1, amended. \<open>PUSH 7; PUSH 0; DIV\<close> throws \<open>Division by zero\<close> and
  \<open>PUSH 7; PUSH 0; MOD\<close> throws \<open>Modulo by zero\<close>, both at index 2. At the throw only
  the divisor 0 has been popped (and is not restored); the dividend 7 has not been popped
  and is the one value left on the operand stack. The engine stops (\<open>running\<close> is false)
  with the program counter at 3.
\<close>

theorem division_by_zero_pops_divisor_only:
  "load_and_run [instr PUSH [7], instr PUSH [0], instr DIV []] fresh_engine =
     Ok () \<lparr>program = [instr PUSH [7], instr PUSH [0], instr DIV []], stack = [7],
       memory = Map.empty, call_stack = [], pc = 3, running = False, cout = [],
       cerr = ''Runtime error at PC=2: Division by zero'' @ [newline]\<rparr> \<and>
   load_and_run [instr PUSH [7], instr PUSH [0], instr MOD []] fresh_engine =
     Ok () \<lparr>program = [instr PUSH [7], instr PUSH [0], instr MOD []], stack = [7],
       memory = Map.empty, call_stack = [], pc = 3, running = False, cout = [],
       cerr = ''Runtime error at PC=2: Modulo by zero'' @ [newline]\<rparr>"
  by (simp add: eval_defs)

section \<open>The program counter after \<open>run\<close>\<close>




section \<open>What the catch handler does not contain\<close>

text \<open>
  C3 fails on the code. The program \<open>PUSH INT_MIN; PUSH -1; DIV\<close> (and the same with
  MOD) carries every operand its instructions read. The divisor is not zero, so nothing
  is thrown; the quotient \<open>2^31\<close> is not an \<open>int\<close>, and \<open>a / b\<close> has no defined result:
  there is no \<open>runtime_error\<close> for the handler to catch, and \<open>run\<close> does not return a
  final state.
\<close>

theorem quotient_overflow_leaves_run:
  "list_all well_formed [instr PUSH [INT_MIN], instr PUSH [- 1], instr DIV []] \<and>
   load_and_run [instr PUSH [INT_MIN], instr PUSH [- 1], instr DIV []] fresh_engine =
     Undefined QuotientOverflow \<and>
   load_and_run [instr PUSH [INT_MIN], instr PUSH [- 1], instr MOD []] fresh_engine =
     Undefined QuotientOverflow"
  by (simp add: eval_defs)

section \<open>Termination of \<open>run\<close>\<close>

text \<open>
  C4, as stated for every loaded program, fails. A PUSH that carries no operand reads
  \<open>operands[0]\<close> of an empty vector: the first dispatch has no defined behaviour and
  \<open>run\<close> reaches none of the three terminal states.
\<close>

theorem missing_operand_cex:
  "load_and_run [instr PUSH []] fresh_engine = Undefined OperandIndex"
  by (simp add: eval_defs)

text \<open>
  C4, amended. For every program \<open>p\<close> whose instructions carry the operands the dispatch
  reads, loaded into any engine: a budget of \<open>length p\<close> dispatches is enough for
  \<open>run\<close> to finish (for this part the hypothesis is not needed), and either \<open>run\<close>
  returns in a terminal state, \<open>running\<close> false or the program counter equal to
  \<open>length p\<close>, or after \<open>k < length p\<close> dispatches the loop is about to dispatch, at
  index \<open>k\<close>, a DIV or a MOD with \<open>INT_MIN\<close> and \<open>-1\<close> on top of the operand stack.
\<close>

theorem run_within_budget:
  assumes "list_all well_formed p"
  shows "\<exists>e0. load_program p e = Ok () e0 \<and> run_fuel (length p) e0 = Some (run e0) \<and>
    ((\<exists>e'. run e0 = Ok () e' \<and> pc e' \<le> length p \<and> (\<not> running e' \<or> pc e' = length p)) \<or>
     (\<exists>k e1 s. k < length p \<and> run_prefix k e0 = Ok () e1 \<and> running e1 \<and> pc e1 = k \<and>
        opcode (p ! k) \<in> {DIV, MOD} \<and> stack e1 = s @ [INT_MIN, - 1] \<and>
        run e0 = Undefined QuotientOverflow))"
proof -
  let ?e = "e\<lparr>program := p, pc := 0, running := True, call_stack := []\<rparr>"
  have l: "load_program p e = Ok () ?e"
    by (rule load_program_eq)
  have f: "run_fuel (length p) ?e = Some (run ?e)"
    by (rule run_fuel_enough) simp
  from assms have "run ?e \<noteq> Undefined OperandIndex"
    by (intro run_operands) simp
  then consider "run ?e = Undefined QuotientOverflow" | e' where "run ?e = Ok () e'"
    using run_cases [of ?e] by blast
  then have "(\<exists>e'. run ?e = Ok () e' \<and> pc e' \<le> length p \<and> (\<not> running e' \<or> pc e' = length p)) \<or>
     (\<exists>k e1 s. k < length p \<and> run_prefix k ?e = Ok () e1 \<and> running e1 \<and> pc e1 = k \<and>
        opcode (p ! k) \<in> {DIV, MOD} \<and> stack e1 = s @ [INT_MIN, - 1] \<and>
        run ?e = Undefined QuotientOverflow)"
  proof cases
    case 1
    then obtain k e1 where k: "run_prefix k ?e = Ok () e1" "running e1"
        "pc e1 < length (program e1)"
        "dispatch (program e1 ! pc e1) e1 = Undefined QuotientOverflow"
      using run_overflow_state by blast
    from k(1,2,3) have "pc e1 = pc ?e + k \<and> program e1 = program ?e"
      by (rule run_prefix_frame)
    then have pk: "pc e1 = k" and pp: "program e1 = p"
      by simp_all
    from k(4) pk pp have "opcode (p ! k) \<in> {DIV, MOD} \<and> (\<exists>s. stack e1 = s @ [INT_MIN, - 1])"
      by (simp add: dispatch_quotient_overflow)
    then obtain s where "opcode (p ! k) \<in> {DIV, MOD}" "stack e1 = s @ [INT_MIN, - 1]"
      by blast
    with k pk pp 1 show ?thesis
      by blast
  next
    case 2
    moreover have "pc ?e \<le> length (program ?e)"
      by simp
    ultimately have "pc e' \<le> length (program ?e) \<and> (\<not> running e' \<or> pc e' = length (program ?e))"
      using run_final by blast
    with 2 show ?thesis
      by simp
  qed
  with l f show ?thesis
    by blast
qed

theorem run_within_budget_witness:
  "list_all well_formed [instr PUSH [6], instr PUSH [3], instr DIV [], instr PRINT []] \<and>
   (\<exists>e0. load_program [instr PUSH [6], instr PUSH [3], instr DIV [], instr PRINT []] fresh_engine = Ok () e0 \<and>
     run_fuel (length [instr PUSH [6], instr PUSH [3], instr DIV [], instr PRINT []]) e0 =
       Some (run e0) \<and>
     (\<exists>e'. run e0 = Ok () e' \<and> pc e' = 4 \<and> running e' \<and> cout e' = ''2'' @ [newline]))"
proof -
  let ?p = "[instr PUSH [6], instr PUSH [3], instr DIV [], instr PRINT []]"
  have wf: "list_all well_formed ?p"
    by (simp add: eval_defs)
  have r: "\<exists>e'. run (fresh_engine\<lparr>program := ?p, pc := 0, running := True, call_stack := []\<rparr>) = Ok () e' \<and>
      pc e' = 4 \<and> running e' \<and> cout e' = ''2'' @ [newline]"
    by (simp add: eval_defs)
  from run_within_budget [OF wf, of fresh_engine] obtain e0 where
    e0: "load_program ?p fresh_engine = Ok () e0" "run_fuel (length ?p) e0 = Some (run e0)"
    by blast
  from e0(1) have "e0 = fresh_engine\<lparr>program := ?p, pc := 0, running := True, call_stack := []\<rparr>"
    by (simp add: load_program_eq)
  with r e0 wf show ?thesis
    by blast
qed

text \<open>The second case at \<open>PUSH INT_MIN; PUSH -1; MOD\<close>: the state after two dispatches.\<close>

lemma run_prefix_before_overflow:
  "run_prefix 2 (fresh_engine\<lparr>program := [instr PUSH [INT_MIN], instr PUSH [- 1], instr MOD []]\<rparr>) =
     Ok () (fresh_engine\<lparr>program := [instr PUSH [INT_MIN], instr PUSH [- 1], instr MOD []],
       stack := [INT_MIN, - 1], pc := 2\<rparr>)"
  by (simp add: eval_defs numeral_2_eq_2)

section \<open>Reloading\<close>

text \<open>
  C5. For every engine state \<open>e\<close> and program \<open>p\<close>, \<open>load_program p\<close> returns (it throws
  nothing) with the program replaced, the program counter 0, \<open>running\<close> true and the call
  stack empty; the operand stack and the memory are those of \<open>e\<close>, so every \<open>load\<close> gives
  what it gave before. For example, the 9 stored at address 42 by a first program is
  loaded and printed by a second one.
\<close>

theorem load_program_resets:
  "(\<exists>e'. load_program p e = Ok () e' \<and> program e' = p \<and> pc e' = 0 \<and> running e' \<and>
     call_stack e' = [] \<and> stack e' = stack e \<and> memory e' = memory e \<and>
     load a (memory e') = load a (memory e)) \<and>
   bind (load_and_run [instr PUSH [9], instr STORE [42], instr HALT []])
     (\<lambda>_. load_and_run [instr LOAD [42], instr PRINT []]) fresh_engine =
   Ok () \<lparr>program = [instr LOAD [42], instr PRINT []], stack = [], memory = [42 \<mapsto> 9],
     call_stack = [], pc = 2, running = True, cout = ''9'' @ [newline], cerr = []\<rparr>"
proof -
  have "\<exists>e'. load_program p e = Ok () e' \<and> program e' = p \<and> pc e' = 0 \<and> running e' \<and>
     call_stack e' = [] \<and> stack e' = stack e \<and> memory e' = memory e \<and>
     load a (memory e') = load a (memory e)"
    by (simp add: load_program_eq)
  moreover have "bind (load_and_run [instr PUSH [9], instr STORE [42], instr HALT []])
     (\<lambda>_. load_and_run [instr LOAD [42], instr PRINT []]) fresh_engine =
   Ok () \<lparr>program = [instr LOAD [42], instr PRINT []], stack = [], memory = [42 \<mapsto> 9],
     call_stack = [], pc = 2, running = True, cout = ''9'' @ [newline], cerr = []\<rparr>"
    by (simp add: eval_defs)
  ultimately show ?thesis
    by blast
qed

section \<open>Control-transfer opcodes\<close>

text \<open>
  C6. When the loop dispatches an instruction whose opcode is JMP, JZ, JNZ, CALL or RET
  (the opcodes with no case in the \<open>switch\<close>), the dispatch throws
  \<open>Unknown instruction\<close> without touching the state, the diagnostic line carries the
  index of that instruction, \<open>running\<close> becomes false and \<open>run\<close> returns.
\<close>

theorem control_transfer_is_unknown:
  assumes "running e" and "pc e < length (program e)"
    and "opcode (program e ! pc e) \<in> {JMP, JZ, JNZ, CALL, RET}"
  shows "dispatch (program e ! pc e) e = Throw UnknownInstruction e \<and>
    run e = Ok () (e\<lparr>cerr := cerr e @ ''Runtime error at PC='' @ show_nat (pc e) @
        '': Unknown instruction'' @ [newline],
      running := False, pc := pc e + 1\<rparr>)"
proof -
  from assms(3) have d: "dispatch (program e ! pc e) e = Throw UnknownInstruction e"
    by (auto simp: dispatch_def)
  then have "execute (program e ! pc e) e =
      Ok () (e\<lparr>cerr := cerr e @ diagnostic (pc e) UnknownInstruction, running := False\<rparr>)"
    by (simp add: execute_def)
  with assms have "run e = run (e\<lparr>cerr := cerr e @ diagnostic (pc e) UnknownInstruction,
      running := False, pc := pc e + 1\<rparr>)"
    by (simp add: run_step)
  also have "\<dots> = Ok () (e\<lparr>cerr := cerr e @ diagnostic (pc e) UnknownInstruction,
      running := False, pc := pc e + 1\<rparr>)"
    by (simp add: run_stop)
  finally show ?thesis
    using d by (simp add: diagnostic_def)
qed

theorem control_transfer_is_unknown_witness:
  "running (fresh_engine\<lparr>program := [instr PUSH [1], instr JMP [0]], pc := 1\<rparr>) \<and>
   pc (fresh_engine\<lparr>program := [instr PUSH [1], instr JMP [0]], pc := 1\<rparr>) < 2 \<and>
   opcode ([instr PUSH [1], instr JMP [0]] ! 1) \<in> {JMP, JZ, JNZ, CALL, RET} \<and>
   run (fresh_engine\<lparr>program := [instr PUSH [1], instr JMP [0]], pc := 1\<rparr>) =
     Ok () (fresh_engine\<lparr>program := [instr PUSH [1], instr JMP [0]],
       cerr := ''Runtime error at PC=1: Unknown instruction'' @ [newline],
       running := False, pc := 2\<rparr>)"
  using control_transfer_is_unknown [of "fresh_engine\<lparr>program := [instr PUSH [1], instr JMP [0]], pc := 1\<rparr>"]
  by (simp add: fresh_engine_def instr_def show_nat.simps digit_char_def)

section \<open>The program of \<open>main\<close>\<close>

text \<open>
  C8. \<open>main\<close> loads \<open>PUSH 5; STORE 0; PUSH 10; STORE 1; LOAD 0; LOAD 1; ADD; PRINT; HALT\<close>
  into a fresh engine and runs it: the whole output on \<open>cout\<close> is the line \<open>15\<close>, nothing
  is written to \<open>cerr\<close>, and the engine ends with \<open>running\<close> false and an empty operand
  stack.
\<close>

theorem main_prints_15:
  "main = Ok () \<lparr>engine = \<lparr>program = main_program, stack = [], memory = [0 \<mapsto> 5, 1 \<mapsto> 10],
     call_stack = [], pc = 9, running = False, cout = ''15'' @ [newline], cerr = []\<rparr>\<rparr>"
  by (simp add: main_def main_program_def vm_load_program_def vm_run_def on_engine_def eval_defs)

section \<open>Memory\<close>

lemma store_other:
  "store b v m = Ok u m' \<Longrightarrow> b \<noteq> a \<Longrightarrow> m' a = m a"
  by (auto simp: store_def split: if_splits)

text \<open>
  C9. For every address \<open>a\<close> in \<open>[0, 65535]\<close>: on a memory with no entry for \<open>a\<close> (the
  map starts empty and \<open>store\<close> is its only writer, so this is a memory \<open>a\<close> was never
  stored to), \<open>load a\<close> returns 0 and throws nothing; and on any memory, \<open>load a\<close> after
  \<open>store a v\<close> returns \<open>v\<close>.
\<close>

theorem memory_round_trip:
  assumes "0 \<le> sint a" and "sint a \<le> 65535"
  shows "(m a = None \<longrightarrow> load a m = Ok 0 m) \<and>
    bind (store a v) (\<lambda>_. load a) m = Ok v (m(a \<mapsto> v))"
  using assms by (simp add: load_def store_def bind_def MAX_ADDRESS_def)

theorem memory_round_trip_witness:
  "0 \<le> sint (42 :: cint) \<and> sint (42 :: cint) \<le> 65535 \<and> [7 \<mapsto> 1 :: cint] (42 :: cint) = None \<and>
   load 42 [7 \<mapsto> 1] = Ok 0 [7 \<mapsto> 1] \<and>
   bind (store 42 9) (\<lambda>_. load 42) [42 \<mapsto> 3 :: cint] = Ok 9 [42 \<mapsto> 9]"
  using memory_round_trip [of 42 "[7 \<mapsto> 1]" 9] memory_round_trip [of 42 "[42 \<mapsto> 3]" 9]
  by simp

section \<open>The program counter after an error\<close>

lemma show_nat_examples:
  "show_nat 0 = ''0'' \<and> show_nat 9 = ''9'' \<and> show_nat 10 = ''10'' \<and> show_nat 907 = ''907''"
  by (simp add: show_nat.simps digit_char_def)

text \<open>
  C10. When the loop dispatches the instruction at index \<open>pc e\<close> and the dispatch throws
  an error \<open>x\<close>, \<open>run\<close> returns with \<open>running\<close> false and the program counter at
  \<open>pc e + 1\<close>, while the line written to \<open>cerr\<close> is \<open>Runtime error at PC=\<close>, the
  decimal of \<open>pc e\<close>, a colon and the message of \<open>x\<close>.
\<close>

theorem pc_after_error:
  assumes "running e" and "pc e < length (program e)"
    and "dispatch (program e ! pc e) e = Throw x e1"
  shows "run e = Ok () (e1\<lparr>cerr := cerr e @ ''Runtime error at PC='' @ show_nat (pc e) @
        '': '' @ what x @ [newline],
      running := False, pc := pc e + 1\<rparr>)"
proof -
  from assms(3) have "state_of (dispatch (program e ! pc e) e) = Some e1"
    by simp
  then have f: "pc e1 = pc e \<and> program e1 = program e \<and> cerr e1 = cerr e"
    using dispatch_frame by blast
  from assms(3) have "execute (program e ! pc e) e =
      Ok () (e1\<lparr>cerr := cerr e1 @ diagnostic (pc e1) x, running := False\<rparr>)"
    by (simp add: execute_def)
  with assms f have "run e = run (e1\<lparr>cerr := cerr e @ diagnostic (pc e) x,
      running := False, pc := pc e + 1\<rparr>)"
    by (simp add: run_step)
  also have "\<dots> = Ok () (e1\<lparr>cerr := cerr e @ diagnostic (pc e) x,
      running := False, pc := pc e + 1\<rparr>)"
    by (simp add: run_stop)
  finally show ?thesis
    by (simp add: diagnostic_def)
qed

theorem pc_after_error_witness:
  "load_and_run [instr PUSH [3], instr POP [], instr POP [], instr HALT []] fresh_engine =
     Ok () (fresh_engine\<lparr>program := [instr PUSH [3], instr POP [], instr POP [], instr HALT []],
       cerr := ''Runtime error at PC=2: Stack Underflow'' @ [newline],
       running := False, pc := 3\<rparr>)"
proof -
  let ?p = "[instr PUSH [3], instr POP [], instr POP [], instr HALT []]"
  let ?e = "fresh_engine\<lparr>program := ?p, pc := 2\<rparr>"
  have a: "running ?e" and b: "pc ?e < length (program ?e)"
    by (simp_all add: fresh_engine_def)
  have c: "dispatch (program ?e ! pc ?e) ?e = Throw StackUnderflow ?e"
    by (simp add: eval_defs)
  have "load_and_run ?p fresh_engine = run ?e"
    by (simp add: eval_defs)
  with pc_after_error [OF a b c] show ?thesis
    by (simp add: eval_defs)
qed

end
